theory Spec2Isabelle
  imports Main "HOL-Library.Product_Lexorder" "HOL-Library.List_Lexorder" "HOL-Library.Char_ord"
    "HOL-Library.Multiset"
begin

section \<open>The collected row and the persisted table\<close>

text \<open>
  A row is the dict built in the collection loop (\<^verbatim>\<open>row = {"video_id": video.id, ...}\<close>).
  The S3 collector adds the column \<^verbatim>\<open>repost_count\<close>, which the local scripts do not have
  (\<open>None\<close> there); the column \<^verbatim>\<open>thumbnail_path\<close> / \<^verbatim>\<open>thumbnail_s3_key\<close> is the field
  \<open>thumbnail\<close>. A table (a pandas DataFrame read from or written as parquet) is the list
  of its rows in index order; a stored table is taken to carry the \<^verbatim>\<open>video_id\<close> column.
\<close>

record row =
  video_id :: string
  posted_ts :: int
  description :: string
  author_id :: string
  author_name :: string
  follower_count :: int
  view_count :: int
  like_count :: int
  share_count :: int
  comment_count :: int
  repost_count :: "int option"
  thumbnail :: string
  top_comments :: "string list"

type_synonym table = "row list"

text \<open>The object at \<^verbatim>\<open>S3_DATA_KEY\<close> (or the local parquet file): absent, or a table.\<close>

type_synonym store = "table option"

subsection \<open>\<^verbatim>\<open>src/src/tiktok_data_collect_s3.py\<close>: the S3 merge\<close>

text \<open>
  What reading the stored table does: \<^verbatim>\<open>get_object\<close> answers (with the object, or with
  \<^verbatim>\<open>NoSuchKey\<close> when there is none), it raises another \<^verbatim>\<open>ClientError\<close>, or the read
  raises an exception that is not a \<^verbatim>\<open>ClientError\<close>.
\<close>

datatype get_reply = Answers | Client_error | Other_error

datatype 'a result = Raise | Return 'a

text \<open>
  \<^verbatim>\<open>load_existing_parquet_from_s3\<close>: both kinds of \<^verbatim>\<open>ClientError\<close> return \<^verbatim>\<open>None\<close>; any
  other exception is not caught here.
\<close>

definition load_existing_parquet_from_s3 :: "get_reply \<Rightarrow> store \<Rightarrow> table option result" where
  "load_existing_parquet_from_s3 got s =
     (case got of Answers \<Rightarrow> Return s | Client_error \<Rightarrow> Return None | Other_error \<Rightarrow> Raise)"

text \<open>
  \<^verbatim>\<open>save_parquet_to_s3\<close>: \<^verbatim>\<open>put_object\<close> replaces the stored object and the function
  returns \<^verbatim>\<open>True\<close>, or an exception is caught (\<open>put_ok = False\<close>), nothing is stored and it
  returns \<^verbatim>\<open>False\<close>.
\<close>

definition save_parquet_to_s3 :: "bool \<Rightarrow> table \<Rightarrow> store \<Rightarrow> store \<times> bool" where
  "save_parquet_to_s3 put_ok df s = (if put_ok then (Some df, True) else (s, False))"

text \<open>\<^verbatim>\<open>new_df[~new_df['video_id'].isin(existing_video_ids)]\<close>\<close>

definition not_isin :: "table \<Rightarrow> string set \<Rightarrow> table" where
  "not_isin new_df existing_video_ids =
     filter (\<lambda>r. video_id r \<notin> existing_video_ids) new_df"

text \<open>
  \<^verbatim>\<open>save_batch_to_s3(rows, batch_number)\<close> returns the new store and the returned count.
  An exception of the read reaches the outer handler, which returns 0. With an existing
  table and \<^verbatim>\<open>rows = []\<close>, \<^verbatim>\<open>pd.DataFrame([])\<close> has no column \<^verbatim>\<open>video_id\<close>: the lookup
  raises \<^verbatim>\<open>KeyError\<close>, caught by the outer handler as well. (Both call sites pass a
  non-empty list.)
\<close>

definition save_batch_to_s3 ::
  "get_reply \<Rightarrow> bool \<Rightarrow> row list \<Rightarrow> store \<Rightarrow> store \<times> nat" where
  "save_batch_to_s3 got put_ok rows s =
     (case load_existing_parquet_from_s3 got s of
        Raise \<Rightarrow> (s, 0)
      | Return (Some existing_df) \<Rightarrow>
          (if rows = [] then (s, 0)
           else
             let existing_video_ids = set (map video_id existing_df);
                 new_df = not_isin rows existing_video_ids
             in if length new_df > 0 then
                  (let combined_df = existing_df @ new_df
                   in case save_parquet_to_s3 put_ok combined_df s of
                        (s', True) \<Rightarrow> (s', length combined_df)
                      | (s', False) \<Rightarrow> (s', length existing_df))
                else (s, length existing_df))
      | Return None \<Rightarrow>
          (case save_parquet_to_s3 put_ok rows s of
             (s', True) \<Rightarrow> (s', length rows)
           | (s', False) \<Rightarrow> (s', 0)))"

subsection \<open>\<^verbatim>\<open>src/src/tiktok_data_collect.py\<close>: the merge at the end of \<^verbatim>\<open>main\<close>\<close>

text \<open>
  The block \<^verbatim>\<open>if rows: ...\<close> at the end of \<^verbatim>\<open>main\<close>, on the local parquet file. Reading and
  writing have no handler there: the model is the run in which they succeed.
\<close>

definition main_save :: "row list \<Rightarrow> store \<Rightarrow> store" where
  "main_save rows file =
     (if rows \<noteq> [] then
        (case file of
           Some existing_df \<Rightarrow>
             (let existing_video_ids = set (map video_id existing_df);
                  new_df = not_isin rows existing_video_ids
              in if length new_df > 0 then Some (existing_df @ new_df) else file)
         | None \<Rightarrow> Some rows)
      else file)"

text \<open>The ids of a store, and a row that carries only an id (for the scenarios).\<close>

definition ids :: "store \<Rightarrow> string list" where
  "ids s = (case s of None \<Rightarrow> [] | Some t \<Rightarrow> map video_id t)"

definition row_of :: "string \<Rightarrow> row" where
  "row_of i = \<lparr>video_id = i, posted_ts = 0, description = [], author_id = [],
     author_name = [], follower_count = 0, view_count = 0, like_count = 0, share_count = 0,
     comment_count = 0, repost_count = None, thumbnail = [], top_comments = []\<rparr>"

section \<open>The Comment Ranker: \<^verbatim>\<open>fetch_top_comments\<close>\<close>

text \<open>
  \<^verbatim>\<open>comments.sort(reverse=True)\<close> on a list of tuples: Python sorts by the tuple order
  (first component, then second), descending, and keeps equal elements in their original
  order, which is the stable ascending sort of the reversed list, reversed. Tuples
  \<^verbatim>\<open>(int, str)\<close> are pairs under the lexicographic order, strings compared character by
  character.
\<close>

definition sort_reverse :: "('a::linorder) list \<Rightarrow> 'a list" where
  "sort_reverse xs = rev (sort (rev xs))"

text \<open>The slice \<^verbatim>\<open>xs[:n]\<close>; a negative \<open>n\<close> counts from the end.\<close>

definition slice_to :: "'a list \<Rightarrow> int \<Rightarrow> 'a list" where
  "slice_to xs n = (if 0 \<le> n then take (nat n) xs else take (nat (int (length xs) + n)) xs)"

text \<open>
  A comment delivered by \<^verbatim>\<open>video.comments(count=50)\<close>: \<open>Comment d t\<close> has
  \<^verbatim>\<open>as_dict["digg_count"] = d\<close> (\<open>None\<close> is Python's \<^verbatim>\<open>None\<close>) and \<^verbatim>\<open>text = t\<close>;
  \<open>Malformed\<close> is a record on which reading either raises.
\<close>

datatype comment = Comment "int option" string | Malformed

text \<open>
  \<^verbatim>\<open>comments.append((c.as_dict["digg_count"] or 0, c.text))\<close> inside its \<^verbatim>\<open>try\<close>: a record
  that raises is skipped.
\<close>

fun append_comment :: "(int \<times> string) list \<Rightarrow> comment \<Rightarrow> (int \<times> string) list" where
  "append_comment comments (Comment digg_count text) =
     comments @ [(case digg_count of None \<Rightarrow> 0 | Some d \<Rightarrow> d, text)]"
| "append_comment comments Malformed = comments"

text \<open>
  \<^verbatim>\<open>fetch_top_comments(video, n)\<close> of \<^verbatim>\<open>src/src/tiktok_data_collect.py\<close> and of
  \<^verbatim>\<open>src/src/tiktok_data_collect_s3.py\<close> (the same code). The argument is the list of comments the
  remote stream delivers before it ends; whether it ends by exhaustion or by raising, the
  inner handlers catch it and the comments collected so far are ranked.
\<close>

definition fetch_top_comments :: "comment list \<Rightarrow> int \<Rightarrow> string list" where
  "fetch_top_comments video_comments n =
     (let comments =
        (case video_comments of
           [] \<Rightarrow> []
         | first_comment # rest \<Rightarrow>
             foldl append_comment (append_comment [] first_comment) rest)
      in if comments \<noteq> [] then map snd (slice_to (sort_reverse comments) n) else [])"

text \<open>
  \<^verbatim>\<open>fetch_top_comments\<close> of the older script \<^verbatim>\<open>src/tiktok_data_collect.py\<close>:
  one \<^verbatim>\<open>try\<close> around the loop and the sort; any exception (\<open>Raised\<close>) returns the empty
  list. The comments are taken as the pairs \<^verbatim>\<open>(c.stats["diggCount"], c.text)\<close>.
\<close>

datatype stream_end = Exhausted | Raised

definition fetch_top_comments_old ::
  "(int \<times> string) list \<Rightarrow> stream_end \<Rightarrow> int \<Rightarrow> string list" where
  "fetch_top_comments_old cs e n =
     (if e = Raised then [] else map snd (slice_to (sort_reverse cs) n))"

text \<open>A well-formed comment from a (score, text) pair.\<close>

definition of_pair :: "int \<times> string \<Rightarrow> comment" where
  "of_pair p = Comment (Some (fst p)) (snd p)"

section \<open>The collection loop\<close>

subsection \<open>Candidates, collaborators and the state of a run\<close>

text \<open>
  A video pulled from \<^verbatim>\<open>tag.videos(...)\<close>, with the fields the scripts read: \<^verbatim>\<open>video.id\<close>,
  \<^verbatim>\<open>video.create_time.timestamp()\<close>, \<^verbatim>\<open>as_dict["desc"]\<close>, the author, the counts of
  \<^verbatim>\<open>video.stats\<close> and \<^verbatim>\<open>as_dict["authorStats"]\<close>, and \<^verbatim>\<open>as_dict["video"]["cover"]\<close>
  (the empty string when the platform gives no cover URL). Timestamps are compared only,
  so they are integers here. A candidate is taken to carry all of these fields (a missing
  one would raise in the loop body and end the term through its handler).
\<close>

record video =
  vid :: string
  create_time :: int
  desc :: string
  user_id :: string
  username :: string
  followerCount :: int
  playCount :: int
  diggCount :: int
  shareCount :: int
  commentCount :: int
  repostCount :: int
  cover :: string

text \<open>
  What the collaborators answer when the loop asks them about this candidate:
  \<^item> \<open>head_ok\<close>: \<^verbatim>\<open>head_object\<close> answers (found or 404); \<open>False\<close> is another \<^verbatim>\<open>ClientError\<close>;
  \<^item> \<open>cover_reply\<close>: \<^verbatim>\<open>requests.get(cover_url)\<close> raises (\<open>None\<close>) or answers with a status code;
  \<^item> \<open>image_ok\<close>: whether decoding, resizing and encoding the payload succeeds;
  \<^item> \<open>upload_ok\<close>: whether \<^verbatim>\<open>put_object\<close> of the thumbnail succeeds;
  \<^item> \<open>comment_stream\<close>: the comments \<^verbatim>\<open>video.comments(count=50)\<close> delivers;
  \<^item> \<open>elapsed\<close>: \<^verbatim>\<open>time.time() - start_time\<close> when the candidate is pulled;
  \<^item> \<open>batch_get\<close>, \<open>batch_put_ok\<close>: the answers of the table storage, should a batch be
    saved after this candidate.
  These are the failures the loop body handles itself.
\<close>

record remote =
  head_ok :: bool
  cover_reply :: "int option"
  image_ok :: bool
  upload_ok :: bool
  comment_stream :: "comment list"
  elapsed :: int
  batch_get :: get_reply
  batch_put_ok :: bool

text \<open>Calls to the collaborators, logged with the video id they are made for.\<close>

datatype event = Image_fetch string | Normalize string | Thumb_write string | Comment_fetch string

text \<open>
  The variables of a run (\<^verbatim>\<open>rows\<close>, \<^verbatim>\<open>attempts\<close>, and in the S3 collector
  \<^verbatim>\<open>total_processed\<close>, \<^verbatim>\<open>batch_count\<close>, \<^verbatim>\<open>elapsed_time\<close>), the video ids that have a
  thumbnail at their location (\<^verbatim>\<open>THUMBS_DIR/<id>.jpg\<close>, or the S3 key
  \<^verbatim>\<open>raw/thumbnails/<id>.jpg\<close>), the stored table, and the log of collaborator calls.
\<close>

record run =
  st_rows :: "row list"
  st_attempts :: int
  st_total :: int
  st_batches :: int
  st_elapsed :: int
  st_thumbs :: "string set"
  st_store :: store
  st_trace :: "event list"

record config =
  VIDEOS_PER_TAG :: int
  REQUEST_CAP :: int
  ONE_YEAR_AGO :: int
  TARGET_START :: int
  TARGET_END :: int
  BATCH_SIZE :: int
  MAX_EXECUTION_TIME :: int

text \<open>
  How the loop body ends for a candidate: rejected by the timestamp filter (\<open>Too_old\<close> in
  \<^verbatim>\<open>src/src/tiktok_data_collect.py\<close>, \<open>Wrong_timestamp\<close> in the older script), dropped by
  a \<^verbatim>\<open>continue\<close> of the thumbnail block, or row appended.
\<close>

datatype outcome = Too_old | Wrong_timestamp | Thumbnail_failed | Appended

definition log_event :: "event \<Rightarrow> run \<Rightarrow> run" where
  "log_event ev st = st\<lparr>st_trace := st_trace st @ [ev]\<rparr>"

text \<open>The calls made between two states of a run.\<close>

definition new_events :: "run \<Rightarrow> run \<Rightarrow> event list" where
  "new_events st st' = drop (length (st_trace st)) (st_trace st')"

definition make_row :: "video \<Rightarrow> int option \<Rightarrow> string \<Rightarrow> row" where
  "make_row v reposts location =
     \<lparr>video_id = vid v, posted_ts = create_time v, description = desc v,
      author_id = user_id v, author_name = username v, follower_count = followerCount v,
      view_count = playCount v, like_count = diggCount v, share_count = shareCount v,
      comment_count = commentCount v, repost_count = reposts, thumbnail = location,
      top_comments = []\<rparr>"

text \<open>
  The comment step of \<^verbatim>\<open>src/src/tiktok_data_collect.py\<close> and \<^verbatim>\<open>src/src/tiktok_data_collect_s3.py\<close>:
  \<^verbatim>\<open>if int(stats.get('commentCount', 0)) > 0: row["top_comments"] = await fetch_top_comments(video, n=5)\<close>,
  else the empty list.
\<close>

definition comment_step :: "video \<Rightarrow> remote \<Rightarrow> run \<Rightarrow> string list \<times> run" where
  "comment_step v r st =
     (if commentCount v > 0
      then (fetch_top_comments (comment_stream r) 5, log_event (Comment_fetch (vid v)) st)
      else ([], st))"

definition append_row :: "row \<Rightarrow> run \<Rightarrow> run" where
  "append_row new_row st = st\<lparr>st_rows := st_rows st @ [new_row]\<rparr>"

subsection \<open>\<^verbatim>\<open>src/src/tiktok_data_collect.py\<close>: \<^verbatim>\<open>main\<close>\<close>

text \<open>\<^verbatim>\<open>THUMBS_DIR / f"{video.id}.jpg"\<close>, relative to the working directory.\<close>

definition thumb_path :: "string \<Rightarrow> string" where
  "thumb_path i = ''tiktok_data/thumbnails/'' @ i @ ''.jpg''"

text \<open>
  \<^verbatim>\<open>resize_and_save(img_bytes, out_path)\<close> decodes, resizes and writes the file, or raises.
\<close>

definition resize_and_save :: "video \<Rightarrow> remote \<Rightarrow> run \<Rightarrow> run \<times> bool" where
  "resize_and_save v r st =
     (let st1 = log_event (Normalize (vid v)) st
      in if image_ok r
         then (log_event (Thumb_write (vid v)) (st1\<lparr>st_thumbs := insert (vid v) (st_thumbs st1)\<rparr>),
               True)
         else (st1, False))"

text \<open>
  The thumbnail block of \<^verbatim>\<open>main\<close>. The result \<open>False\<close> is the \<^verbatim>\<open>continue\<close> of the handler;
  the branch for a status other than 200 prints and falls through.
\<close>

definition main_thumbnail :: "video \<Rightarrow> remote \<Rightarrow> run \<Rightarrow> bool \<times> run" where
  "main_thumbnail v r st =
     (if vid v \<notin> st_thumbs st then
        (case cover_reply r of
           None \<Rightarrow> (False, log_event (Image_fetch (vid v)) st)
         | Some status_code \<Rightarrow>
             (let st1 = log_event (Image_fetch (vid v)) st
              in if status_code = 200 then
                   (case resize_and_save v r st1 of
                      (st2, True) \<Rightarrow> (True, st2)
                    | (st2, False) \<Rightarrow> (False, st2))
                 else (True, st1)))
      else (True, st))"

text \<open>The body of the loop over the videos of a term, after \<^verbatim>\<open>attempts += 1\<close>.\<close>

definition main_body :: "config \<Rightarrow> video \<Rightarrow> remote \<Rightarrow> run \<Rightarrow> outcome \<times> run" where
  "main_body cfg v r st =
     (if create_time v < ONE_YEAR_AGO cfg then (Too_old, st)
      else
        (case main_thumbnail v r st of
           (False, st1) \<Rightarrow> (Thumbnail_failed, st1)
         | (True, st1) \<Rightarrow>
             (case comment_step v r st1 of
                (comments, st2) \<Rightarrow>
                  (Appended,
                   append_row
                     ((make_row v None (thumb_path (vid v)))\<lparr>top_comments := comments\<rparr>)
                     st2))))"

text \<open>
  \<^verbatim>\<open>async for video in tag.videos(...)\<close>: the feed is the list of candidates it delivers
  and how it ends. The result says whether the loop was left by an exception of the feed
  (then the handler of the term runs). The pacing sleeps and the progress bar are left out.
\<close>

fun main_videos ::
  "config \<Rightarrow> (video \<times> remote) list \<Rightarrow> stream_end \<Rightarrow> int \<Rightarrow> run \<Rightarrow> run \<times> bool" where
  "main_videos cfg [] fin videos_processed st = (st, fin = Raised)"
| "main_videos cfg ((v, r) # feed) fin videos_processed st =
     (if st_attempts st \<ge> REQUEST_CAP cfg then (st, False)
      else
        (case main_body cfg v r (st\<lparr>st_attempts := st_attempts st + 1\<rparr>) of
           (Appended, st1) \<Rightarrow>
             if videos_processed + 1 \<ge> VIDEOS_PER_TAG cfg then (st1, False)
             else main_videos cfg feed fin (videos_processed + 1) st1
         | (_, st1) \<Rightarrow> main_videos cfg feed fin videos_processed st1))"

text \<open>\<^verbatim>\<open>for search_term in SEARCH_TERMS\<close>, given the feed of each term.\<close>

fun main_terms :: "config \<Rightarrow> ((video \<times> remote) list \<times> stream_end) list \<Rightarrow> run \<Rightarrow> run" where
  "main_terms cfg [] st = st"
| "main_terms cfg ((feed, fin) # terms) st =
     (case main_videos cfg feed fin 0 st of
        (st1, True) \<Rightarrow> main_terms cfg terms st1
      | (st1, False) \<Rightarrow>
          if st_attempts st1 \<ge> REQUEST_CAP cfg then st1 else main_terms cfg terms st1)"

text \<open>\<^verbatim>\<open>main\<close>: the loop from the initial variables, then the merge into the parquet file.\<close>

definition main :: "config \<Rightarrow> ((video \<times> remote) list \<times> stream_end) list \<Rightarrow> run \<Rightarrow> run" where
  "main cfg terms st =
     (let st1 = main_terms cfg terms (st\<lparr>st_rows := [], st_attempts := 0\<rparr>)
      in st1\<lparr>st_store := main_save (st_rows st1) (st_store st1)\<rparr>)"

subsection \<open>\<^verbatim>\<open>src/tiktok_data_collect.py\<close> (the older script): \<^verbatim>\<open>main\<close>\<close>

text \<open>
  The thumbnail block: \<^verbatim>\<open>resize_and_save(video.bytes_cover, thumb_path)\<close> in one \<^verbatim>\<open>try\<close>;
  reading the cover bytes raises unless the platform answers with status 200.
\<close>

definition old_thumbnail :: "video \<Rightarrow> remote \<Rightarrow> run \<Rightarrow> bool \<times> run" where
  "old_thumbnail v r st =
     (if vid v \<notin> st_thumbs st then
        (let st1 = log_event (Image_fetch (vid v)) st
         in if cover_reply r = Some 200 then
              (case resize_and_save v r st1 of
                 (st2, True) \<Rightarrow> (True, st2)
               | (st2, False) \<Rightarrow> (False, st2))
            else (False, st1))
      else (True, st))"

text \<open>
  The pairs \<^verbatim>\<open>(c.stats["diggCount"], c.text)\<close> of a comment stream; a comment without an
  integer count or text is taken to raise inside the \<^verbatim>\<open>try\<close> of \<^verbatim>\<open>fetch_top_comments\<close>.
\<close>

fun old_pairs :: "comment list \<Rightarrow> (int \<times> string) list option" where
  "old_pairs [] = Some []"
| "old_pairs (Comment (Some d) t # cs) = map_option ((#) (d, t)) (old_pairs cs)"
| "old_pairs (_ # cs) = None"

definition old_comment_step :: "remote \<Rightarrow> string list" where
  "old_comment_step r =
     (case old_pairs (comment_stream r) of
        Some cs \<Rightarrow> fetch_top_comments_old cs Exhausted 5
      | None \<Rightarrow> fetch_top_comments_old [] Raised 5)"

text \<open>
  The body of the loop after \<^verbatim>\<open>attempts += 1\<close>.
\<close>

definition old_body :: "config \<Rightarrow> video \<Rightarrow> remote \<Rightarrow> run \<Rightarrow> outcome \<times> run" where
  "old_body cfg v r st =
     (if \<not> (TARGET_START cfg \<le> create_time v \<and> create_time v \<le> TARGET_END cfg)
      then (Wrong_timestamp, st)
      else
        (case old_thumbnail v r st of
           (False, st1) \<Rightarrow> (Thumbnail_failed, st1)
         | (True, st1) \<Rightarrow>
             (Appended,
              append_row
                ((make_row v None (thumb_path (vid v)))
                   \<lparr>top_comments := old_comment_step r\<rparr>)
                (log_event (Comment_fetch (vid v)) st1))))"

fun old_videos ::
  "config \<Rightarrow> (video \<times> remote) list \<Rightarrow> stream_end \<Rightarrow> run \<Rightarrow> run \<times> bool" where
  "old_videos cfg [] fin st = (st, fin = Raised)"
| "old_videos cfg ((v, r) # feed) fin st =
     (if st_attempts st \<ge> REQUEST_CAP cfg then (st, False)
      else
        (case old_body cfg v r (st\<lparr>st_attempts := st_attempts st + 1\<rparr>) of
           (_, st1) \<Rightarrow> old_videos cfg feed fin st1))"

fun old_terms :: "config \<Rightarrow> ((video \<times> remote) list \<times> stream_end) list \<Rightarrow> run \<Rightarrow> run" where
  "old_terms cfg [] st = st"
| "old_terms cfg ((feed, fin) # terms) st =
     (case old_videos cfg feed fin st of
        (st1, True) \<Rightarrow> old_terms cfg terms st1
      | (st1, False) \<Rightarrow>
          if st_attempts st1 \<ge> REQUEST_CAP cfg then st1 else old_terms cfg terms st1)"

subsection \<open>\<^verbatim>\<open>src/src/tiktok_data_collect_s3.py\<close>: \<^verbatim>\<open>collect_tiktok_data\<close>\<close>

definition thumbnail_s3_key :: "string \<Rightarrow> string" where
  "thumbnail_s3_key i = ''raw/thumbnails/'' @ i @ ''.jpg''"

text \<open>
  \<^verbatim>\<open>check_s3_object_exists\<close>: \<^verbatim>\<open>True\<close> when \<^verbatim>\<open>head_object\<close> finds the object; \<^verbatim>\<open>False\<close> on
  404 and on any other \<^verbatim>\<open>ClientError\<close>.
\<close>

definition check_s3_object_exists :: "bool \<Rightarrow> string \<Rightarrow> string set \<Rightarrow> bool" where
  "check_s3_object_exists ok i thumbs = (if ok then i \<in> thumbs else False)"

text \<open>
  \<^verbatim>\<open>resize_and_save_to_s3\<close>: decode, resize, encode, \<^verbatim>\<open>put_object\<close>; any exception is
  caught and \<^verbatim>\<open>False\<close> returned.
\<close>

definition resize_and_save_to_s3 :: "video \<Rightarrow> remote \<Rightarrow> run \<Rightarrow> run \<times> bool" where
  "resize_and_save_to_s3 v r st =
     (let st1 = log_event (Normalize (vid v)) st
      in if image_ok r then
           (if upload_ok r
            then (log_event (Thumb_write (vid v))
                    (st1\<lparr>st_thumbs := insert (vid v) (st_thumbs st1)\<rparr>), True)
            else (st1, False))
         else (st1, False))"

text \<open>The block \<^verbatim>\<open># Handle thumbnail\<close>; the result \<open>False\<close> is one of its \<^verbatim>\<open>continue\<close>s.\<close>

definition collect_thumbnail :: "video \<Rightarrow> remote \<Rightarrow> run \<Rightarrow> bool \<times> run" where
  "collect_thumbnail v r st =
     (if \<not> check_s3_object_exists (head_ok r) (vid v) (st_thumbs st) then
        (if cover v = [] then (False, st)
         else
           (case cover_reply r of
              None \<Rightarrow> (False, log_event (Image_fetch (vid v)) st)
            | Some status_code \<Rightarrow>
                (let st1 = log_event (Image_fetch (vid v)) st
                 in if status_code = 200 then
                      (case resize_and_save_to_s3 v r st1 of
                         (st2, True) \<Rightarrow> (True, st2)
                       | (st2, False) \<Rightarrow> (False, st2))
                    else (False, st1))))
      else (True, st))"

text \<open>The body of the loop after \<^verbatim>\<open>attempts += 1\<close>, up to \<^verbatim>\<open>rows.append(row)\<close>.\<close>

definition collect_body :: "video \<Rightarrow> remote \<Rightarrow> run \<Rightarrow> outcome \<times> run" where
  "collect_body v r st =
     (case collect_thumbnail v r st of
        (False, st1) \<Rightarrow> (Thumbnail_failed, st1)
      | (True, st1) \<Rightarrow>
          (case comment_step v r st1 of
             (comments, st2) \<Rightarrow>
               (Appended,
                append_row
                  ((make_row v (Some (repostCount v)) (thumbnail_s3_key (vid v)))
                     \<lparr>top_comments := comments\<rparr>)
                  st2)))"

text \<open>\<^verbatim>\<open># Save batch if needed\<close>\<close>

definition save_if_needed :: "config \<Rightarrow> remote \<Rightarrow> run \<Rightarrow> run" where
  "save_if_needed cfg r st =
     (if int (length (st_rows st)) \<ge> BATCH_SIZE cfg
      then st\<lparr>st_batches := st_batches st + 1,
              st_store := fst (save_batch_to_s3 (batch_get r) (batch_put_ok r)
                                 (st_rows st) (st_store st)),
              st_rows := []\<rparr>
      else st)"

fun collect_videos ::
  "config \<Rightarrow> (video \<times> remote) list \<Rightarrow> stream_end \<Rightarrow> int \<Rightarrow> run \<Rightarrow> run \<times> bool" where
  "collect_videos cfg [] fin videos_processed st = (st, fin = Raised)"
| "collect_videos cfg ((v, r) # feed) fin videos_processed st =
     (let st0 = st\<lparr>st_elapsed := elapsed r\<rparr>
      in if st_elapsed st0 > MAX_EXECUTION_TIME cfg then (st0, False)
         else if st_attempts st0 \<ge> REQUEST_CAP cfg then (st0, False)
         else
           (case collect_body v r (st0\<lparr>st_attempts := st_attempts st0 + 1\<rparr>) of
              (Appended, st1) \<Rightarrow>
                (let st2 = save_if_needed cfg r (st1\<lparr>st_total := st_total st1 + 1\<rparr>)
                 in if videos_processed + 1 \<ge> VIDEOS_PER_TAG cfg then (st2, False)
                    else collect_videos cfg feed fin (videos_processed + 1) st2)
            | (_, st1) \<Rightarrow> collect_videos cfg feed fin videos_processed st1))"

text \<open>
  The loop over the search terms; a term comes with the elapsed time read before it and
  with its feed.
\<close>

fun collect_terms ::
  "config \<Rightarrow> (int \<times> (video \<times> remote) list \<times> stream_end) list \<Rightarrow> run \<Rightarrow> run" where
  "collect_terms cfg [] st = st"
| "collect_terms cfg ((elapsed_time, feed, fin) # terms) st =
     (let st0 = st\<lparr>st_elapsed := elapsed_time\<rparr>
      in if st_elapsed st0 > MAX_EXECUTION_TIME cfg then st0
         else
           (case collect_videos cfg feed fin 0 st0 of
              (st1, True) \<Rightarrow> collect_terms cfg terms st1
            | (st1, False) \<Rightarrow>
                if st_attempts st1 \<ge> REQUEST_CAP cfg \<or> st_elapsed st1 > MAX_EXECUTION_TIME cfg
                then st1 else collect_terms cfg terms st1))"

text \<open>
  \<^verbatim>\<open>collect_tiktok_data\<close> with tokens present: the loop from the initial variables, then
  \<^verbatim>\<open># Save any remaining rows\<close> (with the answers of the table storage for that save).
\<close>

definition collect_tiktok_data ::
  "config \<Rightarrow> (int \<times> (video \<times> remote) list \<times> stream_end) list \<Rightarrow> get_reply \<Rightarrow> bool
     \<Rightarrow> run \<Rightarrow> run" where
  "collect_tiktok_data cfg terms final_get final_put_ok st =
     (let st1 = collect_terms cfg terms
                  (st\<lparr>st_rows := [], st_attempts := 0, st_total := 0, st_batches := 0\<rparr>)
      in if st_rows st1 \<noteq> []
         then st1\<lparr>st_batches := st_batches st1 + 1,
                  st_store := fst (save_batch_to_s3 final_get final_put_ok
                                     (st_rows st1) (st_store st1))\<rparr>
         else st1)"

subsection \<open>Concrete inputs for the scenarios\<close>

definition video_of :: "string \<Rightarrow> int \<Rightarrow> int \<Rightarrow> video" where
  "video_of i t c =
     \<lparr>vid = i, create_time = t, desc = [], user_id = [], username = [], followerCount = 0,
      playCount = 0, diggCount = 0, shareCount = 0, commentCount = c, repostCount = 0,
      cover = ''https://cover''\<rparr>"

text \<open>Collaborators that all succeed, with the given answer to the cover request.\<close>

definition replying :: "int option \<Rightarrow> remote" where
  "replying c =
     \<lparr>head_ok = True, cover_reply = c, image_ok = True, upload_ok = True,
      comment_stream = [Comment (Some 2) ''nice''], elapsed = 0,
      batch_get = Answers, batch_put_ok = True\<rparr>"

definition empty_run :: run where
  "empty_run =
     \<lparr>st_rows = [], st_attempts = 0, st_total = 0, st_batches = 0, st_elapsed = 0,
      st_thumbs = {}, st_store = None, st_trace = []\<rparr>"

text \<open>
  A configuration with the given per-term target and attempt cap; the cutoff is 1000 and
  the target day is \<open>[1000, 2000]\<close>.
\<close>

definition config_of :: "int \<Rightarrow> int \<Rightarrow> config" where
  "config_of per_tag cap =
     \<lparr>VIDEOS_PER_TAG = per_tag, REQUEST_CAP = cap, ONE_YEAR_AGO = 1000,
      TARGET_START = 1000, TARGET_END = 2000, BATCH_SIZE = 25, MAX_EXECUTION_TIME = 840\<rparr>"

section \<open>The Dataset Merger\<close>

lemma ids_not_isin:
  "map video_id (not_isin rows S) = filter (\<lambda>i. i \<notin> S) (map video_id rows)"
  by (simp add: not_isin_def filter_map comp_def)

lemma distinct_append_not_isin:
  assumes "distinct (map video_id e)" and "distinct (map video_id rows)"
  shows "distinct (map video_id (e @ not_isin rows (set (map video_id e))))"
  using assms by (auto simp: ids_not_isin)

lemma set_append_not_isin:
  "set (map video_id (e @ not_isin rows (set (map video_id e))))
     = set (map video_id e) \<union> set (map video_id rows)"
  by (auto simp: ids_not_isin)

lemma not_isin_all_present:
  assumes "set (map video_id rows) \<subseteq> S"
  shows "not_isin rows S = []"
  using assms by (auto simp: not_isin_def filter_empty_conv)

lemma not_isin_empty_subset:
  assumes "not_isin rows (set (map video_id e)) = []"
  shows "set (map video_id rows) \<subseteq> set (map video_id e)"
  using assms by (auto simp: not_isin_def filter_empty_conv)


lemma save_batch_ids_union:
  "set (ids (fst (save_batch_to_s3 Answers True rows s))) = set (ids s) \<union> set (map video_id rows)"
proof (cases s)
  case None
  then show ?thesis
    by (simp add: save_batch_to_s3_def load_existing_parquet_from_s3_def
        save_parquet_to_s3_def ids_def)
next
  case (Some e)
  show ?thesis
  proof (cases "not_isin rows (set (map video_id e)) = []")
    case True
    with Some not_isin_empty_subset [OF True] show ?thesis
      by (auto simp: save_batch_to_s3_def load_existing_parquet_from_s3_def
          save_parquet_to_s3_def ids_def Let_def)
  next
    case False
    then have "rows \<noteq> []" by (auto simp: not_isin_def)
    with False Some set_append_not_isin [of e rows] show ?thesis
      by (simp add: save_batch_to_s3_def load_existing_parquet_from_s3_def
          save_parquet_to_s3_def ids_def Let_def)
  qed
qed

lemma main_save_ids_union:
  "set (ids (main_save rows s)) = set (ids s) \<union> set (map video_id rows)"
proof (cases s)
  case None
  then show ?thesis by (simp add: main_save_def ids_def)
next
  case (Some e)
  show ?thesis
  proof (cases "not_isin rows (set (map video_id e)) = []")
    case True
    with Some not_isin_empty_subset [OF True] show ?thesis
      by (auto simp: main_save_def ids_def Let_def)
  next
    case False
    then have "rows \<noteq> []" by (auto simp: not_isin_def)
    with False Some set_append_not_isin [of e rows] show ?thesis
      by (simp add: main_save_def ids_def Let_def)
  qed
qed


lemma save_batch_all_present:
  assumes "rows \<noteq> []" and "set (map video_id rows) \<subseteq> set (map video_id t)"
  shows "save_batch_to_s3 Answers put_ok rows (Some t) = (Some t, length t)"
  using assms not_isin_all_present [OF assms(2)]
  by (simp add: save_batch_to_s3_def load_existing_parquet_from_s3_def Let_def)


lemma main_save_all_present:
  assumes "set (map video_id rows) \<subseteq> set (map video_id t)"
  shows "main_save rows (Some t) = Some t"
  using not_isin_all_present [OF assms]
  by (simp add: main_save_def Let_def)

text \<open>
  C1, as stated, fails: the merge filters the incoming batch against the ids of the
  existing table only, so a video id that occurs twice inside the batch is appended twice
  (and written twice on the first write). With the table \<open>[A, B]\<close> and the batch
  \<open>[A, C, C, D]\<close> the merged table is \<open>[A, B, C, C, D]\<close>.
\<close>

theorem merge_batch_duplicate_counterexample:
  "ids (fst (save_batch_to_s3 Answers True (map row_of [''A'', ''C'', ''C'', ''D''])
         (Some (map row_of [''A'', ''B''])))) = [''A'', ''B'', ''C'', ''C'', ''D'']
   \<and> \<not> distinct (ids (fst (save_batch_to_s3 Answers True (map row_of [''A'', ''C'', ''C'', ''D''])
         (Some (map row_of [''A'', ''B''])))))
   \<and> \<not> distinct (ids (main_save (map row_of [''A'', ''C'', ''C'', ''D''])
         (Some (map row_of [''A'', ''B'']))))
   \<and> \<not> distinct (ids (fst (save_batch_to_s3 Answers True (map row_of [''C'', ''C'']) None)))"
  by (simp add: save_batch_to_s3_def load_existing_parquet_from_s3_def save_parquet_to_s3_def
      not_isin_def ids_def row_of_def main_save_def)

text \<open>
  C1 (amended): when the rows of the incoming batch have pairwise different video ids and
  the stored table (if there is one) has no two rows with the same id, no two rows of the
  table share a video id after the merge, whatever the storage calls answer, on the first
  write as well; and after a merge whose read and write succeed the table's id set is the
  union of the existing ids and the batch's ids. Both mergers (S3 and local) are covered.
\<close>

theorem merge_keeps_ids_unique:
  assumes "distinct (ids s)" and "distinct (map video_id rows)"
  shows "distinct (ids (fst (save_batch_to_s3 got put_ok rows s)))
       \<and> distinct (ids (main_save rows s))
       \<and> (got = Answers \<and> put_ok \<longrightarrow>
            set (ids (fst (save_batch_to_s3 got put_ok rows s)))
              = set (ids s) \<union> set (map video_id rows))
       \<and> set (ids (main_save rows s)) = set (ids s) \<union> set (map video_id rows)"
proof -
  have a: "distinct (ids (fst (save_batch_to_s3 got put_ok rows s)))"
    using assms distinct_append_not_isin
    by (auto simp: save_batch_to_s3_def load_existing_parquet_from_s3_def save_parquet_to_s3_def
        ids_def Let_def split: option.splits get_reply.splits)
  have b: "distinct (ids (main_save rows s))"
    using assms distinct_append_not_isin
    by (auto simp: main_save_def ids_def Let_def split: option.splits)
  from a b save_batch_ids_union [of rows s] main_save_ids_union [of rows s]
  show ?thesis by simp
qed

theorem merge_keeps_ids_unique_witness:
  "distinct (ids (Some (map row_of [''A'', ''B''])))
   \<and> distinct (map video_id (map row_of [''A'', ''C'', ''D'']))
   \<and> distinct (ids (fst (save_batch_to_s3 Answers True (map row_of [''A'', ''C'', ''D''])
         (Some (map row_of [''A'', ''B''])))))
   \<and> set (ids (fst (save_batch_to_s3 Answers True (map row_of [''A'', ''C'', ''D''])
         (Some (map row_of [''A'', ''B''])))))
      = {''A'', ''B'', ''C'', ''D''}"
proof -
  have h1: "distinct (ids (Some (map row_of [''A'', ''B''])))"
    by (simp add: ids_def row_of_def)
  have h2: "distinct (map video_id (map row_of [''A'', ''C'', ''D'']))"
    by (simp add: row_of_def)
  show ?thesis
    using merge_keeps_ids_unique [OF h1 h2, of Answers True]
    by (auto simp: ids_def row_of_def)
qed




section \<open>The Comment Ranker\<close>

lemma foldl_append_comment: "foldl append_comment acc (map of_pair cs) = acc @ cs"
  by (induction cs arbitrary: acc) (simp_all add: of_pair_def)

lemma fetch_top_comments_pairs:
  "fetch_top_comments (map of_pair cs) n = map snd (slice_to (sort_reverse cs) n)"
proof (cases cs)
  case Nil
  then show ?thesis by (simp add: fetch_top_comments_def slice_to_def sort_reverse_def)
next
  case (Cons c cs')
  have "foldl append_comment (append_comment [] (of_pair c)) (map of_pair cs') = c # cs'"
    unfolding foldl_append_comment by (simp add: of_pair_def)
  with Cons show ?thesis by (simp add: fetch_top_comments_def)
qed

lemma mset_sort_reverse: "mset (sort_reverse xs) = mset xs"
  by (simp add: sort_reverse_def)

lemma length_sort_reverse: "length (sort_reverse xs) = length xs"
  by (simp add: sort_reverse_def)

lemma sorted_sort_reverse: "sorted_wrt (\<lambda>a b. b \<le> a) (sort_reverse xs)"
proof -
  have "sorted (rev (sort_reverse xs))" by (simp add: sort_reverse_def)
  then show ?thesis by (simp add: sorted_wrt_rev)
qed

lemma sort_reverse_desc_score:
  "sorted_wrt (\<lambda>a b. fst b \<le> fst a) (sort_reverse (cs :: (int \<times> string) list))"
  by (rule sorted_wrt_mono_rel [OF _ sorted_sort_reverse]) (auto simp: less_eq_prod_def)

lemma sort_reverse_tie_text:
  "sorted_wrt (\<lambda>a b. fst a = fst b \<longrightarrow> snd b \<le> snd a)
     (sort_reverse (cs :: (int \<times> string) list))"
  by (rule sorted_wrt_mono_rel [OF _ sorted_sort_reverse]) (auto simp: less_eq_prod_def)

text \<open>
  C3: on \<open>M\<close> well-formed (score, text) pairs and a target \<open>K = n \<ge> 0\<close>, both versions of
  \<^verbatim>\<open>fetch_top_comments\<close> return the texts of the first \<open>K\<close> elements of a rearrangement of
  the input that is ordered by descending score: exactly \<open>min M K\<close> texts; on the empty
  input they return the empty list.
\<close>

theorem fetch_top_comments_top_k:
  assumes "0 \<le> n"
  shows "fetch_top_comments (map of_pair cs) n = map snd (take (nat n) (sort_reverse cs))
       \<and> fetch_top_comments_old cs Exhausted n = map snd (take (nat n) (sort_reverse cs))
       \<and> mset (sort_reverse cs) = mset cs
       \<and> sorted_wrt (\<lambda>a b. fst b \<le> fst a) (sort_reverse cs)
       \<and> length (fetch_top_comments (map of_pair cs) n) = min (length cs) (nat n)
       \<and> length (fetch_top_comments_old cs Exhausted n) = min (length cs) (nat n)
       \<and> fetch_top_comments [] n = []
       \<and> fetch_top_comments_old [] Exhausted n = []"
proof -
  have a: "fetch_top_comments (map of_pair cs) n = map snd (take (nat n) (sort_reverse cs))"
    using assms by (simp add: fetch_top_comments_pairs slice_to_def)
  have b: "fetch_top_comments_old cs Exhausted n = map snd (take (nat n) (sort_reverse cs))"
    using assms by (simp add: fetch_top_comments_old_def slice_to_def)
  have c: "fetch_top_comments [] n = []"
    by (simp add: fetch_top_comments_def)
  have d: "fetch_top_comments_old [] Exhausted n = []"
    by (simp add: fetch_top_comments_old_def slice_to_def sort_reverse_def)
  show ?thesis
    unfolding a b c d
    using sort_reverse_desc_score [of cs]
    by (simp add: mset_sort_reverse length_sort_reverse min.commute)
qed

theorem fetch_top_comments_top_k_witness:
  "(0::int) \<le> 2
   \<and> fetch_top_comments
        (map of_pair [(1, ''low''), (7, ''high''), (3, ''mid'')]) 2 = [''high'', ''mid'']
   \<and> length (fetch_top_comments
        (map of_pair [(1, ''low''), (7, ''high''), (3, ''mid'')]) 2) = min 3 2"
proof -
  have h: "(0::int) \<le> 2" by simp
  have s: "sort_reverse [(1::int, ''low''), (7, ''high''), (3, ''mid'')]
             = [(7, ''high''), (3, ''mid''), (1, ''low'')]"
    by (simp add: sort_reverse_def less_eq_prod_def)
  show ?thesis
    using fetch_top_comments_top_k [OF h, of "[(1, ''low''), (7, ''high''), (3, ''mid'')]"]
    unfolding s by simp
qed

text \<open>
  C10: comments with equal scores come out by descending comparison of their texts (the
  tuples are sorted in reverse), in both versions; two comments with the same score that
  arrive as \<open>a\<close>, \<open>b\<close> are returned as \<open>b\<close>, \<open>a\<close>.
\<close>

theorem fetch_top_comments_ties_by_text:
  "fetch_top_comments (map of_pair cs) n = map snd (slice_to (sort_reverse cs) n)
   \<and> fetch_top_comments_old cs Exhausted n = map snd (slice_to (sort_reverse cs) n)
   \<and> sorted_wrt (\<lambda>a b. fst a = fst b \<longrightarrow> snd b \<le> snd a) (sort_reverse cs)
   \<and> fetch_top_comments (map of_pair [(1, ''a''), (1, ''b'')]) 5 = [''b'', ''a'']
   \<and> fetch_top_comments_old [(1, ''a''), (1, ''b'')] Exhausted 5 = [''b'', ''a'']"
proof -
  have s: "sort_reverse [(1::int, ''a''), (1, ''b'')] = [(1, ''b''), (1, ''a'')]"
    by (simp add: sort_reverse_def less_eq_prod_def)
  have a: "fetch_top_comments (map of_pair [(1, ''a''), (1, ''b'')]) 5 = [''b'', ''a'']"
    unfolding fetch_top_comments_pairs s by (simp add: slice_to_def)
  have b: "fetch_top_comments_old [(1, ''a''), (1, ''b'')] Exhausted 5 = [''b'', ''a'']"
    unfolding fetch_top_comments_old_def s by (simp add: slice_to_def)
  show ?thesis
    unfolding a b
    using sort_reverse_tie_text [of cs]
    by (simp add: fetch_top_comments_pairs fetch_top_comments_old_def)
qed

theorem fetch_top_comments_ties_by_text_witness:
  "fst (1::int, ''b'') = fst (1::int, ''a'') \<and> ''a'' \<le> ''b''
   \<and> sort_reverse [(1::int, ''a''), (1, ''b'')] = [(1, ''b''), (1, ''a'')]
   \<and> fetch_top_comments (map of_pair [(1, ''a''), (1, ''b'')]) 5 = [''b'', ''a'']"
proof -
  have s: "sort_reverse [(1::int, ''a''), (1, ''b'')] = [(1, ''b''), (1, ''a'')]"
    by (simp add: sort_reverse_def less_eq_prod_def)
  show ?thesis
    using fetch_top_comments_ties_by_text [of "[(1, ''a''), (1, ''b'')]" 5]
    unfolding s by (simp add: slice_to_def)
qed

section \<open>The loop body: thumbnail and comment steps\<close>

lemma comment_step_zero:
  "commentCount v = 0 \<Longrightarrow> comment_step v r st = ([], st)"
  by (simp add: comment_step_def)

lemma trace_main_thumbnail:
  "\<exists>evs. st_trace (snd (main_thumbnail v r st)) = st_trace st @ evs
         \<and> (\<forall>i. Comment_fetch i \<notin> set evs)"
  by (auto simp: main_thumbnail_def resize_and_save_def log_event_def Let_def
      split: option.splits)

lemma rows_main_thumbnail:
  "st_rows (snd (main_thumbnail v r st)) = st_rows st"
  by (auto simp: main_thumbnail_def resize_and_save_def log_event_def Let_def
      split: option.splits)

lemma trace_collect_thumbnail:
  "\<exists>evs. st_trace (snd (collect_thumbnail v r st)) = st_trace st @ evs
         \<and> (\<forall>i. Comment_fetch i \<notin> set evs)"
  by (auto simp: collect_thumbnail_def resize_and_save_to_s3_def log_event_def Let_def
      split: option.splits)

lemma rows_collect_thumbnail:
  "st_rows (snd (collect_thumbnail v r st)) = st_rows st"
  by (auto simp: collect_thumbnail_def resize_and_save_to_s3_def log_event_def Let_def
      split: option.splits)

lemma main_thumbnail_exists:
  "vid v \<in> st_thumbs st \<Longrightarrow> main_thumbnail v r st = (True, st)"
  by (simp add: main_thumbnail_def)

lemma collect_thumbnail_exists:
  "check_s3_object_exists (head_ok r) (vid v) (st_thumbs st)
     \<Longrightarrow> collect_thumbnail v r st = (True, st)"
  by (simp add: collect_thumbnail_def)

lemma comment_step_events:
  "set (new_events st (snd (comment_step v r st))) \<subseteq> {Comment_fetch (vid v)}
   \<and> st_thumbs (snd (comment_step v r st)) = st_thumbs st"
  by (simp add: comment_step_def new_events_def log_event_def)

lemma fst_main_thumbnail_indep:
  "fst (main_thumbnail v r (st\<lparr>st_rows := seen, st_store := persisted\<rparr>))
     = fst (main_thumbnail v r st)"
  by (simp add: main_thumbnail_def resize_and_save_def log_event_def Let_def
      split: option.splits)

lemma fst_collect_thumbnail_indep:
  "fst (collect_thumbnail v r (st\<lparr>st_rows := seen, st_store := persisted\<rparr>))
     = fst (collect_thumbnail v r st)"
  by (simp add: collect_thumbnail_def resize_and_save_to_s3_def log_event_def Let_def
      split: option.splits)

lemma fst_main_body:
  "fst (main_body cfg v r st) =
     (if create_time v < ONE_YEAR_AGO cfg then Too_old
      else if fst (main_thumbnail v r st) then Appended else Thumbnail_failed)"
  by (cases "main_thumbnail v r st"; cases "comment_step v r (snd (main_thumbnail v r st))")
     (auto simp: main_body_def split: bool.splits)

lemma fst_collect_body:
  "fst (collect_body v r st)
     = (if fst (collect_thumbnail v r st) then Appended else Thumbnail_failed)"
  by (cases "collect_thumbnail v r st";
      cases "comment_step v r (snd (collect_thumbnail v r st))")
     (auto simp: collect_body_def split: bool.splits)

text \<open>
  C4, as stated, fails: no script keeps a set of the ids seen in the run or loads the ids
  of the persisted table before the loop. A feed that delivers the video \<open>X\<close> twice gives two
  rows for \<open>X\<close> (local and S3 loop), and with \<open>X\<close> already in the stored table the S3
  collector still fetches its cover and its comments and counts it as processed.
\<close>

theorem no_id_filter_counterexample:
  "map video_id (st_rows (main_terms (config_of 5 10)
      [([(video_of ''X'' 1500 3, replying (Some 200)),
         (video_of ''X'' 1500 3, replying (Some 200))], Exhausted)]
      empty_run)) = [''X'', ''X'']
   \<and> map video_id (st_rows (collect_terms (config_of 5 10)
      [(0, [(video_of ''X'' 1500 3, replying (Some 200)),
            (video_of ''X'' 1500 3, replying (Some 200))], Exhausted)]
      empty_run)) = [''X'', ''X'']
   \<and> st_trace (collect_tiktok_data (config_of 5 10)
        [(0, [(video_of ''X'' 1500 3, replying (Some 200))], Exhausted)] Answers True
        (empty_run\<lparr>st_store := Some [row_of ''X'']\<rparr>))
      = [Image_fetch ''X'', Normalize ''X'', Thumb_write ''X'', Comment_fetch ''X'']
   \<and> st_total (collect_tiktok_data (config_of 5 10)
        [(0, [(video_of ''X'' 1500 3, replying (Some 200))], Exhausted)] Answers True
        (empty_run\<lparr>st_store := Some [row_of ''X'']\<rparr>)) = 1"
  by code_simp

text \<open>
  C4 (amended): the decision of the loop body about a candidate (too old, thumbnail failed,
  or row appended) does not depend on the rows collected so far in the run nor on the
  persisted table, in the local script and in the S3 collector; a row whose video id is
  already persisted is removed at merge time, where the table is left as it is.
\<close>

theorem candidate_filter_ignores_ids:
  "fst (main_body cfg v r (st\<lparr>st_rows := seen, st_store := persisted\<rparr>))
     = fst (main_body cfg v r st)
   \<and> fst (collect_body v r (st\<lparr>st_rows := seen, st_store := persisted\<rparr>))
     = fst (collect_body v r st)
   \<and> (video_id new_row \<in> set (map video_id t) \<longrightarrow>
        main_save [new_row] (Some t) = Some t
      \<and> save_batch_to_s3 Answers write_ok [new_row] (Some t) = (Some t, length t))"
proof -
  have m: "main_save [new_row] (Some t) = Some t
      \<and> save_batch_to_s3 Answers write_ok [new_row] (Some t) = (Some t, length t)"
    if "video_id new_row \<in> set (map video_id t)"
  proof -
    have sub: "set (map video_id [new_row]) \<subseteq> set (map video_id t)" using that by simp
    from main_save_all_present [OF sub] save_batch_all_present [OF _ sub, of write_ok]
    show ?thesis by simp
  qed
  show ?thesis
    unfolding fst_main_body fst_collect_body fst_main_thumbnail_indep
      fst_collect_thumbnail_indep
    using m by blast
qed

theorem candidate_filter_ignores_ids_witness:
  "video_id (row_of ''X'') \<in> set (map video_id [row_of ''X''])
   \<and> main_save [row_of ''X''] (Some [row_of ''X'']) = Some [row_of ''X'']
   \<and> save_batch_to_s3 Answers True [row_of ''X''] (Some [row_of ''X''])
       = (Some [row_of ''X''], 1)"
  using candidate_filter_ignores_ids [where cfg = "config_of 1 3"
      and v = "video_of ''X'' 1500 0" and r = "replying (Some 200)" and st = empty_run
      and seen = "[]" and persisted = None
      and new_row = "row_of ''X''" and t = "[row_of ''X'']" and write_ok = True]
  by simp

text \<open>
  C5: for a candidate whose \<^verbatim>\<open>commentCount\<close> is 0, the loop body (local script and S3
  collector) makes no comment fetch, for any id, and when it appends a row, that row is
  the candidate's row with the empty list of top comments.
\<close>

theorem zero_comment_count_skips_fetch:
  assumes "commentCount v = 0"
  shows "(\<forall>i. Comment_fetch i \<notin> set (new_events st (snd (main_body cfg v r st))))
       \<and> (fst (main_body cfg v r st) = Appended \<longrightarrow>
            st_rows (snd (main_body cfg v r st))
              = st_rows st @ [make_row v None (thumb_path (vid v))])
       \<and> (\<forall>i. Comment_fetch i \<notin> set (new_events st (snd (collect_body v r st))))
       \<and> (fst (collect_body v r st) = Appended \<longrightarrow>
            st_rows (snd (collect_body v r st))
              = st_rows st @ [make_row v (Some (repostCount v)) (thumbnail_s3_key (vid v))])
       \<and> top_comments (make_row v x l) = []"
proof -
  obtain evs where e: "st_trace (snd (main_thumbnail v r st)) = st_trace st @ evs"
    and ne: "\<forall>i. Comment_fetch i \<notin> set evs"
    using trace_main_thumbnail by blast
  obtain evs' where e': "st_trace (snd (collect_thumbnail v r st)) = st_trace st @ evs'"
    and ne': "\<forall>i. Comment_fetch i \<notin> set evs'"
    using trace_collect_thumbnail by blast
  have a: "\<forall>i. Comment_fetch i \<notin> set (new_events st (snd (main_body cfg v r st)))"
    using e ne assms
    by (cases "main_thumbnail v r st")
       (auto simp: main_body_def new_events_def comment_step_zero append_row_def
          split: bool.splits)
  have b: "fst (main_body cfg v r st) = Appended \<longrightarrow>
            st_rows (snd (main_body cfg v r st))
              = st_rows st @ [make_row v None (thumb_path (vid v))]"
    using rows_main_thumbnail [of v r st] assms
    by (cases "main_thumbnail v r st")
       (auto simp: main_body_def comment_step_zero append_row_def make_row_def
          split: bool.splits)
  have c: "\<forall>i. Comment_fetch i \<notin> set (new_events st (snd (collect_body v r st)))"
    using e' ne' assms
    by (cases "collect_thumbnail v r st")
       (auto simp: collect_body_def new_events_def comment_step_zero append_row_def
          split: bool.splits)
  have d: "fst (collect_body v r st) = Appended \<longrightarrow>
            st_rows (snd (collect_body v r st))
              = st_rows st @ [make_row v (Some (repostCount v)) (thumbnail_s3_key (vid v))]"
    using rows_collect_thumbnail [of v r st] assms
    by (cases "collect_thumbnail v r st")
       (auto simp: collect_body_def comment_step_zero append_row_def make_row_def
          split: bool.splits)
  from a b c d show ?thesis by (simp add: make_row_def)
qed

theorem zero_comment_count_skips_fetch_witness:
  "commentCount (video_of ''X'' 1500 0) = 0
   \<and> fst (main_body (config_of 1 3) (video_of ''X'' 1500 0) (replying (Some 200)) empty_run)
       = Appended
   \<and> st_rows (snd (main_body (config_of 1 3) (video_of ''X'' 1500 0) (replying (Some 200))
        empty_run)) = [make_row (video_of ''X'' 1500 0) None (thumb_path ''X'')]
   \<and> Comment_fetch ''X'' \<notin> set (new_events empty_run
        (snd (main_body (config_of 1 3) (video_of ''X'' 1500 0) (replying (Some 200))
           empty_run)))"
proof -
  have h: "commentCount (video_of ''X'' 1500 0) = 0" by (simp add: video_of_def)
  have a: "fst (main_body (config_of 1 3) (video_of ''X'' 1500 0) (replying (Some 200))
             empty_run) = Appended"
    by (simp add: main_body_def main_thumbnail_def resize_and_save_def comment_step_def
        append_row_def log_event_def video_of_def replying_def empty_run_def config_of_def)
  show ?thesis
    using zero_comment_count_skips_fetch [OF h, of empty_run "config_of 1 3"
        "replying (Some 200)"] a h
    by (simp add: video_of_def empty_run_def)
qed

text \<open>
  C6, as stated, fails in the S3 collector: \<^verbatim>\<open>check_s3_object_exists\<close> returns \<^verbatim>\<open>False\<close>
  when \<^verbatim>\<open>head_object\<close> raises a \<^verbatim>\<open>ClientError\<close> other than 404. For a video \<open>X\<close> whose
  thumbnail exists, the loop body then fetches the cover, calls the normalizer and writes
  the thumbnail again.
\<close>

theorem head_error_refetches_counterexample:
  "vid (video_of ''X'' 1500 0) \<in> st_thumbs (empty_run\<lparr>st_thumbs := {''X''}\<rparr>)
   \<and> new_events (empty_run\<lparr>st_thumbs := {''X''}\<rparr>)
        (snd (collect_body (video_of ''X'' 1500 0)
           ((replying (Some 200))\<lparr>head_ok := False\<rparr>)
           (empty_run\<lparr>st_thumbs := {''X''}\<rparr>)))
      = [Image_fetch ''X'', Normalize ''X'', Thumb_write ''X'']"
  by (simp add: collect_body_def collect_thumbnail_def check_s3_object_exists_def
      resize_and_save_to_s3_def comment_step_def append_row_def new_events_def log_event_def
      video_of_def replying_def empty_run_def)

text \<open>
  C6 (amended): when the thumbnail of the candidate's video id exists, the loop body of
  the local script makes no image fetch and no call of the normalizer and writes no
  thumbnail, for any id: the only call it can make is the comment fetch, and the set of
  stored thumbnails is unchanged. The loop body of the S3 collector does the same whenever
  \<^verbatim>\<open>head_object\<close> answers, so that the existence check reports the thumbnail.
\<close>

theorem existing_thumbnail_never_refetched:
  assumes "vid v \<in> st_thumbs st"
  shows "set (new_events st (snd (main_body cfg v r st))) \<subseteq> {Comment_fetch (vid v)}
       \<and> st_thumbs (snd (main_body cfg v r st)) = st_thumbs st
       \<and> (head_ok r \<longrightarrow>
            set (new_events st (snd (collect_body v r st))) \<subseteq> {Comment_fetch (vid v)}
          \<and> st_thumbs (snd (collect_body v r st)) = st_thumbs st)"
proof -
  have a: "set (new_events st (snd (main_body cfg v r st))) \<subseteq> {Comment_fetch (vid v)}
       \<and> st_thumbs (snd (main_body cfg v r st)) = st_thumbs st"
    using comment_step_events [of st v r]
    by (cases "comment_step v r st")
       (auto simp: main_body_def main_thumbnail_exists [OF assms] append_row_def
          new_events_def)
  have b: "set (new_events st (snd (collect_body v r st))) \<subseteq> {Comment_fetch (vid v)}
          \<and> st_thumbs (snd (collect_body v r st)) = st_thumbs st" if "head_ok r"
  proof -
    have "check_s3_object_exists (head_ok r) (vid v) (st_thumbs st)"
      using that assms by (simp add: check_s3_object_exists_def)
    from collect_thumbnail_exists [OF this] comment_step_events [of st v r]
    show ?thesis
      by (cases "comment_step v r st")
         (auto simp: collect_body_def append_row_def new_events_def)
  qed
  from a b show ?thesis by blast
qed

theorem existing_thumbnail_never_refetched_witness:
  "vid (video_of ''X'' 1500 3) \<in> st_thumbs (empty_run\<lparr>st_thumbs := {''X''}\<rparr>)
   \<and> head_ok (replying (Some 200))
   \<and> new_events (empty_run\<lparr>st_thumbs := {''X''}\<rparr>)
        (snd (collect_body (video_of ''X'' 1500 3) (replying (Some 200))
           (empty_run\<lparr>st_thumbs := {''X''}\<rparr>)))
      = [Comment_fetch ''X'']"
proof -
  have h: "vid (video_of ''X'' 1500 3) \<in> st_thumbs (empty_run\<lparr>st_thumbs := {''X''}\<rparr>)"
    by (simp add: video_of_def empty_run_def)
  have e: "new_events (empty_run\<lparr>st_thumbs := {''X''}\<rparr>)
        (snd (collect_body (video_of ''X'' 1500 3) (replying (Some 200))
           (empty_run\<lparr>st_thumbs := {''X''}\<rparr>)))
      = [Comment_fetch ''X'']"
    by (simp add: collect_body_def collect_thumbnail_def check_s3_object_exists_def
        comment_step_def append_row_def new_events_def log_event_def video_of_def
        replying_def empty_run_def)
  show ?thesis
    using existing_thumbnail_never_refetched [OF h, of "config_of 1 3" "replying (Some 200)"] e
    by (simp add: replying_def video_of_def empty_run_def)
qed

text \<open>
  C8, at a failing input: a candidate inside the window, with no thumbnail yet, whose cover
  request is answered with status 404. The loop body of \<^verbatim>\<open>src/src/tiktok_data_collect.py\<close>
  appends a row for it although no thumbnail was written; the S3 collector drops the
  candidate.
\<close>

theorem main_body_http_error_still_appends:
  "fst (main_body (config_of 1 3) (video_of ''X'' 1500 0) (replying (Some 404)) empty_run)
     = Appended
   \<and> map video_id (st_rows (snd (main_body (config_of 1 3) (video_of ''X'' 1500 0)
        (replying (Some 404)) empty_run))) = [''X'']
   \<and> ''X'' \<notin> st_thumbs (snd (main_body (config_of 1 3) (video_of ''X'' 1500 0)
        (replying (Some 404)) empty_run))
   \<and> collect_body (video_of ''X'' 1500 0) (replying (Some 404)) empty_run
       = (Thumbnail_failed, log_event (Image_fetch ''X'') empty_run)"
  by (simp add: main_body_def main_thumbnail_def collect_body_def collect_thumbnail_def
      check_s3_object_exists_def comment_step_def append_row_def log_event_def make_row_def
      video_of_def replying_def empty_run_def config_of_def)

text \<open>
  C9, as stated, fails in the older script: its filter keeps the videos of one target day
  and rejects a candidate that is newer than the end of that day, although it is not older
  than the start.
\<close>

theorem old_filter_rejects_recent_counterexample:
  "fst (old_body (config_of 1 3) (video_of ''X'' 2500 0) (replying (Some 200)) empty_run)
     = Wrong_timestamp
   \<and> \<not> create_time (video_of ''X'' 2500 0) < TARGET_START (config_of 1 3)"
  by (simp add: old_body_def video_of_def config_of_def)

text \<open>
  C9 (amended): in \<^verbatim>\<open>src/src/tiktok_data_collect.py\<close> the loop body rejects a candidate for its
  age exactly when its timestamp is strictly below the cutoff, so a candidate at the cutoff
  is not rejected and none is rejected for being too recent; in the older script it
  rejects exactly the candidates outside the closed interval of the target day, on either
  side.
\<close>

theorem recency_decision:
  "(fst (main_body cfg v r st) = Too_old \<longleftrightarrow> create_time v < ONE_YEAR_AGO cfg)
   \<and> (create_time v = ONE_YEAR_AGO cfg \<longrightarrow> fst (main_body cfg v r st) \<noteq> Too_old)
   \<and> (fst (old_body cfg v r st) = Wrong_timestamp
        \<longleftrightarrow> create_time v < TARGET_START cfg \<or> TARGET_END cfg < create_time v)"
proof -
  have b: "fst (old_body cfg v r st) = Wrong_timestamp
        \<longleftrightarrow> create_time v < TARGET_START cfg \<or> TARGET_END cfg < create_time v"
    by (cases "old_thumbnail v r st") (auto simp: old_body_def split: bool.splits)
  from b show ?thesis by (auto simp: fst_main_body)
qed

theorem recency_decision_witness:
  "create_time (video_of ''X'' 1000 0) = ONE_YEAR_AGO (config_of 1 3)
   \<and> fst (main_body (config_of 1 3) (video_of ''X'' 1000 0) (replying (Some 200)) empty_run)
       \<noteq> Too_old
   \<and> fst (main_body (config_of 1 3) (video_of ''X'' 999 0) (replying (Some 200)) empty_run)
       = Too_old"
  using recency_decision [of "config_of 1 3" "video_of ''X'' 1000 0" "replying (Some 200)"
      empty_run]
    recency_decision [of "config_of 1 3" "video_of ''X'' 999 0" "replying (Some 200)"
      empty_run]
  by (simp add: video_of_def config_of_def)

section \<open>The Feed Walker: the attempt counter\<close>

lemma attempts_main_thumbnail: "st_attempts (snd (main_thumbnail v r st)) = st_attempts st"
  by (auto simp: main_thumbnail_def resize_and_save_def log_event_def Let_def split: option.splits)

lemma attempts_old_thumbnail: "st_attempts (snd (old_thumbnail v r st)) = st_attempts st"
  by (auto simp: old_thumbnail_def resize_and_save_def log_event_def Let_def split: option.splits)

lemma attempts_main_body: "st_attempts (snd (main_body cfg v r st)) = st_attempts st"
  using attempts_main_thumbnail [of v r st]
  by (cases "main_thumbnail v r st")
     (auto simp: main_body_def comment_step_def append_row_def log_event_def split: bool.splits)

lemma attempts_old_body: "st_attempts (snd (old_body cfg v r st)) = st_attempts st"
  using attempts_old_thumbnail [of v r st]
  by (cases "old_thumbnail v r st")
     (auto simp: old_body_def append_row_def log_event_def split: bool.splits)

lemma attempts_main_videos:
  assumes "st_attempts st \<le> REQUEST_CAP cfg"
    and "REQUEST_CAP cfg - st_attempts st \<le> VIDEOS_PER_TAG cfg - videos_processed"
  shows "st_attempts (fst (main_videos cfg feed fin videos_processed st))
           = min (REQUEST_CAP cfg) (st_attempts st + int (length feed))"
  using assms
proof (induction feed arbitrary: videos_processed st)
  case Nil
  then show ?case by simp
next
  case (Cons x feed)
  obtain v r where x: "x = (v, r)" by (cases x)
  obtain out st1 where b: "main_body cfg v r (st\<lparr>st_attempts := st_attempts st + 1\<rparr>) = (out, st1)"
    by (cases "main_body cfg v r (st\<lparr>st_attempts := st_attempts st + 1\<rparr>)")
  have a1: "st_attempts st1 = st_attempts st + 1"
    using attempts_main_body [of cfg v r "st\<lparr>st_attempts := st_attempts st + 1\<rparr>"] b by simp
  show ?case
  proof (cases "st_attempts st \<ge> REQUEST_CAP cfg")
    case True
    with Cons.prems x show ?thesis by simp
  next
    case False
    then have lt: "st_attempts st < REQUEST_CAP cfg" by simp
    show ?thesis
    proof (cases "out = Appended")
      case True
      show ?thesis
      proof (cases "videos_processed + 1 \<ge> VIDEOS_PER_TAG cfg")
        case True
        with Cons.prems lt have "st_attempts st + 1 = REQUEST_CAP cfg" by linarith
        with True \<open>out = Appended\<close> x b lt a1 show ?thesis by simp
      next
        case F: False
        have "st_attempts (fst (main_videos cfg feed fin (videos_processed + 1) st1))
           = min (REQUEST_CAP cfg) (st_attempts st1 + int (length feed))"
          using Cons.prems lt a1 by (intro Cons.IH) auto
        with F True x b lt a1 show ?thesis by simp
      qed
    next
      case F: False
      have "st_attempts (fst (main_videos cfg feed fin videos_processed st1))
           = min (REQUEST_CAP cfg) (st_attempts st1 + int (length feed))"
        using Cons.prems lt a1 by (intro Cons.IH) auto
      with F x b lt a1 show ?thesis by (cases out) simp_all
    qed
  qed
qed

lemma attempts_main_videos_le:
  assumes "st_attempts st \<le> REQUEST_CAP cfg"
  shows "st_attempts (fst (main_videos cfg feed fin videos_processed st)) \<le> REQUEST_CAP cfg"
  using assms
proof (induction feed arbitrary: videos_processed st)
  case Nil
  then show ?case by simp
next
  case (Cons x feed)
  obtain v r where x: "x = (v, r)" by (cases x)
  obtain out st1 where b: "main_body cfg v r (st\<lparr>st_attempts := st_attempts st + 1\<rparr>) = (out, st1)"
    by (cases "main_body cfg v r (st\<lparr>st_attempts := st_attempts st + 1\<rparr>)")
  have a1: "st_attempts st1 = st_attempts st + 1"
    using attempts_main_body [of cfg v r "st\<lparr>st_attempts := st_attempts st + 1\<rparr>"] b by simp
  show ?case
  proof (cases "st_attempts st \<ge> REQUEST_CAP cfg")
    case True
    with Cons.prems x show ?thesis by simp
  next
    case False
    then have le: "st_attempts st1 \<le> REQUEST_CAP cfg" using a1 by simp
    from Cons.IH [OF le] False x b le show ?thesis
      by (cases out) (simp_all)
  qed
qed

lemma attempts_old_videos:
  assumes "st_attempts st \<le> REQUEST_CAP cfg"
  shows "st_attempts (fst (old_videos cfg feed fin st))
           = min (REQUEST_CAP cfg) (st_attempts st + int (length feed))"
  using assms
proof (induction feed arbitrary: st)
  case Nil
  then show ?case by simp
next
  case (Cons x feed)
  obtain v r where x: "x = (v, r)" by (cases x)
  obtain out st1 where b: "old_body cfg v r (st\<lparr>st_attempts := st_attempts st + 1\<rparr>) = (out, st1)"
    by (cases "old_body cfg v r (st\<lparr>st_attempts := st_attempts st + 1\<rparr>)")
  have a1: "st_attempts st1 = st_attempts st + 1"
    using attempts_old_body [of cfg v r "st\<lparr>st_attempts := st_attempts st + 1\<rparr>"] b by simp
  show ?case
  proof (cases "st_attempts st \<ge> REQUEST_CAP cfg")
    case True
    with Cons.prems x show ?thesis by simp
  next
    case False
    then have le: "st_attempts st1 \<le> REQUEST_CAP cfg" using a1 by simp
    from Cons.IH [OF le] False x b a1 show ?thesis by simp
  qed
qed

lemma attempts_main_terms:
  assumes "st_attempts st \<le> REQUEST_CAP cfg"
    and "REQUEST_CAP cfg \<le> VIDEOS_PER_TAG cfg"
    and "0 \<le> st_attempts st"
  shows "st_attempts (main_terms cfg terms st)
           = min (REQUEST_CAP cfg) (st_attempts st + int (length (concat (map fst terms))))"
  using assms
proof (induction terms arbitrary: st)
  case Nil
  then show ?case by simp
next
  case (Cons x terms)
  obtain feed fin where x: "x = (feed, fin)" by (cases x)
  obtain st1 raised where m: "main_videos cfg feed fin 0 st = (st1, raised)"
    by (cases "main_videos cfg feed fin 0 st")
  have a1: "st_attempts st1 = min (REQUEST_CAP cfg) (st_attempts st + int (length feed))"
    using attempts_main_videos [of st cfg 0 feed fin] Cons.prems m by simp
  have le: "st_attempts st1 \<le> REQUEST_CAP cfg" and nn: "0 \<le> st_attempts st1"
    using a1 Cons.prems by auto
  have ih: "st_attempts (main_terms cfg terms st1)
           = min (REQUEST_CAP cfg) (st_attempts st1 + int (length (concat (map fst terms))))"
    using Cons.IH [OF le Cons.prems(2) nn] .
  show ?case
  proof (cases "\<not> raised \<and> st_attempts st1 \<ge> REQUEST_CAP cfg")
    case True
    with x m a1 show ?thesis by auto
  next
    case False
    then have "main_terms cfg (x # terms) st = main_terms cfg terms st1"
      using x m by (cases raised) auto
    with ih a1 show ?thesis using x by auto
  qed
qed

lemma attempts_main_terms_le:
  assumes "st_attempts st \<le> REQUEST_CAP cfg"
  shows "st_attempts (main_terms cfg terms st) \<le> REQUEST_CAP cfg"
  using assms
proof (induction terms arbitrary: st)
  case Nil
  then show ?case by simp
next
  case (Cons x terms)
  obtain feed fin where x: "x = (feed, fin)" by (cases x)
  obtain st1 raised where m: "main_videos cfg feed fin 0 st = (st1, raised)"
    by (cases "main_videos cfg feed fin 0 st")
  have le: "st_attempts st1 \<le> REQUEST_CAP cfg"
    using attempts_main_videos_le [OF Cons.prems, of feed fin 0] m by simp
  from Cons.IH [OF le] x m le show ?case by (cases raised) auto
qed

lemma attempts_old_terms:
  assumes "st_attempts st \<le> REQUEST_CAP cfg"
  shows "st_attempts (old_terms cfg terms st)
           = min (REQUEST_CAP cfg) (st_attempts st + int (length (concat (map fst terms))))"
  using assms
proof (induction terms arbitrary: st)
  case Nil
  then show ?case by simp
next
  case (Cons x terms)
  obtain feed fin where x: "x = (feed, fin)" by (cases x)
  obtain st1 raised where m: "old_videos cfg feed fin st = (st1, raised)"
    by (cases "old_videos cfg feed fin st")
  have a1: "st_attempts st1 = min (REQUEST_CAP cfg) (st_attempts st + int (length feed))"
    using attempts_old_videos [OF Cons.prems, of feed fin] m by simp
  have le: "st_attempts st1 \<le> REQUEST_CAP cfg"
    using a1 by auto
  have ih: "st_attempts (old_terms cfg terms st1)
           = min (REQUEST_CAP cfg) (st_attempts st1 + int (length (concat (map fst terms))))"
    using Cons.IH [OF le] .
  show ?case
  proof (cases "\<not> raised \<and> st_attempts st1 \<ge> REQUEST_CAP cfg")
    case True
    with x m a1 show ?thesis by auto
  next
    case False
    then have "old_terms cfg (x # terms) st = old_terms cfg terms st1"
      using x m by (cases raised) auto
    with ih a1 show ?thesis using x by auto
  qed
qed

text \<open>
  C7, as stated, fails in \<^verbatim>\<open>src/src/tiktok_data_collect.py\<close>: the loop over a term also stops
  when the per-term target of appended rows is reached. With the cap 3, the target 1 and a
  feed of 10 candidates that are all accepted, the walker stops after one attempt.
\<close>

theorem per_term_target_stops_before_cap_counterexample:
  "REQUEST_CAP (config_of 1 3) = 3
   \<and> length (replicate 10 (video_of ''X'' 1500 0, replying (Some 200))) = 10
   \<and> st_attempts (main_terms (config_of 1 3)
        [(replicate 10 (video_of ''X'' 1500 0, replying (Some 200)), Exhausted)] empty_run) = 1"
  by code_simp

text \<open>
  C7 (amended): the loop body leaves the attempt counter as it is (it is incremented once
  before the body, whatever the body's outcome), and the counter of a run never exceeds a
  non-negative cap. In the older script, which has no per-term target, the run ends with
  the counter at the minimum of the cap and the number of candidates the feeds deliver:
  exactly the cap when they deliver at least that many. In \<^verbatim>\<open>src/src/tiktok_data_collect.py\<close>
  the same holds when the cap is at most the per-term target; otherwise the walker may
  stop earlier, at the per-term target.
\<close>

theorem attempts_bounded_by_cap:
  assumes "0 \<le> REQUEST_CAP cfg"
  shows "st_attempts (snd (main_body cfg v r st)) = st_attempts st
     \<and> st_attempts (snd (old_body cfg v r st)) = st_attempts st
     \<and> st_attempts (main_terms cfg terms (st\<lparr>st_attempts := 0\<rparr>)) \<le> REQUEST_CAP cfg
     \<and> (REQUEST_CAP cfg \<le> VIDEOS_PER_TAG cfg \<longrightarrow>
          st_attempts (main_terms cfg terms (st\<lparr>st_attempts := 0\<rparr>))
            = min (REQUEST_CAP cfg) (int (length (concat (map fst terms)))))
     \<and> st_attempts (old_terms cfg terms (st\<lparr>st_attempts := 0\<rparr>))
            = min (REQUEST_CAP cfg) (int (length (concat (map fst terms))))"
proof -
  have z: "st_attempts (st\<lparr>st_attempts := 0\<rparr>) \<le> REQUEST_CAP cfg" using assms by simp
  have a: "st_attempts (main_terms cfg terms (st\<lparr>st_attempts := 0\<rparr>)) \<le> REQUEST_CAP cfg"
    by (rule attempts_main_terms_le [OF z])
  have b: "st_attempts (main_terms cfg terms (st\<lparr>st_attempts := 0\<rparr>))
            = min (REQUEST_CAP cfg) (int (length (concat (map fst terms))))"
    if "REQUEST_CAP cfg \<le> VIDEOS_PER_TAG cfg"
    using attempts_main_terms [OF z that, of terms] by simp
  have c: "st_attempts (old_terms cfg terms (st\<lparr>st_attempts := 0\<rparr>))
            = min (REQUEST_CAP cfg) (int (length (concat (map fst terms))))"
    using attempts_old_terms [OF z, of terms] by simp
  from a b c attempts_main_body [of cfg v r st] attempts_old_body [of cfg v r st]
  show ?thesis by blast
qed

theorem attempts_bounded_by_cap_witness:
  "0 \<le> REQUEST_CAP (config_of 5 3)
   \<and> REQUEST_CAP (config_of 5 3) \<le> VIDEOS_PER_TAG (config_of 5 3)
   \<and> st_attempts (main_terms (config_of 5 3)
        [(replicate 10 (video_of ''X'' 1500 0, replying (Some 200)), Exhausted)]
        (empty_run\<lparr>st_attempts := 0\<rparr>)) = 3
   \<and> st_attempts (old_terms (config_of 5 3)
        [(replicate 10 (video_of ''X'' 1500 0, replying (Some 200)), Exhausted)]
        (empty_run\<lparr>st_attempts := 0\<rparr>)) = 3"
  using attempts_bounded_by_cap [of "config_of 5 3" "video_of ''X'' 1500 0"
     "replying (Some 200)" empty_run
     "[(replicate 10 (video_of ''X'' 1500 0, replying (Some 200)), Exhausted)]"]
  by (simp add: config_of_def)

end
